theory Spec2Isabelle
  imports Main "HOL-Library.Word"
begin

unbundle bit_operations_syntax

section \<open>Data model\<close>

text \<open>
  Go's \<^verbatim>\<open>byte\<close> is an 8-bit word; a \<^verbatim>\<open>[]byte\<close> and a Go \<^verbatim>\<open>string\<close> are both
  sequences of bytes (\<^verbatim>\<open>nil\<close> and the empty slice are both the empty list).
  Lengths and offsets are Go \<^verbatim>\<open>int\<close>s (64 bit); no length in this package comes
  near the bound, so they are \<open>nat\<close>, and \<open>int\<close> where the source subtracts.
\<close>

type_synonym byte = "8 word"
type_synonym bytes = "byte list"

definition bytes_of :: "string \<Rightarrow> bytes" where
  "bytes_of s = map of_char s"

subsection \<open>Constants (secure.go, lines 53-61)\<close>

definition nonceSz :: nat where "nonceSz = 12"
definition keyBits :: nat where "keyBits = 256"
definition keySz :: nat where "keySz = keyBits div 8"
definition adlSz :: nat where "adlSz = 1"
definition maxDataSz :: nat where "maxDataSz = 2 ^ (adlSz * 8) - 1"
definition SaltSz :: nat where "SaltSz = keySz * 8"

subsection \<open>Errors\<close>

text \<open>
  The four sentinels are compared by identity in the source; \<open>ErrorString\<close> is a value
  made by \<^verbatim>\<open>errors.New\<close> or \<^verbatim>\<open>fmt.Errorf\<close> at the place of the failure (never
  identical to a sentinel); \<open>CipherError\<close> and \<open>CorruptError\<close> are the package's two
  error types. \<open>KeySizeError\<close> is \<^verbatim>\<open>aes.KeySizeError\<close> and \<open>CorruptInputError\<close> is
  \<^verbatim>\<open>base64.CorruptInputError\<close> (its byte offset is not modelled).
\<close>

datatype error =
    ErrNotEncrypted
  | ErrNoEncryptionKey
  | ErrDataOverflow
  | ErrInvalidKeySz
  | ErrorString string
  | CipherError error
  | CorruptError bytes
  | KeySizeError nat
  | CorruptInputError

text \<open>A call either returns or panics; a panic carries its message.\<close>

datatype 'a outcome = Returns 'a | Panics string

fun IsDecipherError :: "error \<Rightarrow> bool" where
  "IsDecipherError (CipherError e) = True"
| "IsDecipherError (CorruptError v) = True"
| "IsDecipherError e = False"

subsection \<open>Package-level configuration\<close>

text \<open>
  The package variables \<^verbatim>\<open>signature\<close>, \<^verbatim>\<open>salt\<close> and \<^verbatim>\<open>gKey\<close>, passed explicitly.
  \<^verbatim>\<open>salt\<close> has the array type \<^verbatim>\<open>[SaltSz]byte\<close>: a configuration is well formed when
  its salt has exactly \<open>SaltSz\<close> entries.
\<close>

record config =
  signature :: bytes
  salt :: bytes
  gKey :: bytes

definition defaultSalt :: bytes where
  "defaultSalt =
    [0x51, 0xfc, 0xd8, 0xf9, 0xab, 0x85, 0x93, 0x5d, 0xd2, 0x85, 0x2e, 0x78,
     0x3f, 0x80, 0x3a, 0xce, 0x19, 0xf1, 0x20, 0x75, 0x2a, 0xdd, 0x7b, 0x5c,
     0xe6, 0x17, 0xdb, 0x4b, 0x72, 0xc7, 0x83, 0x06, 0x10, 0x91, 0x70, 0x33,
     0x42, 0x0d, 0x75, 0xf9, 0xb8, 0x14, 0x39, 0x5a, 0xcf, 0xae, 0x6a, 0xec,
     0x7d, 0x3a, 0x2a, 0x87, 0xf8, 0x86, 0xa8, 0xea, 0x25, 0x7e, 0xb5, 0xf9,
     0x61, 0xe8, 0xa5, 0x5e, 0x20, 0x2f, 0xa2, 0x99, 0x85, 0xa3, 0xcc, 0xcd,
     0x5c, 0x39, 0x1b, 0x6d, 0x1b, 0x17, 0xa9, 0xb4, 0xeb, 0x95, 0xdd, 0xfb,
     0xbe, 0x3c, 0x2c, 0x3b, 0xe9, 0x7d, 0x5d, 0x3e, 0x78, 0x37, 0x23, 0xda,
     0xa5, 0x35, 0xd8, 0x36, 0xa7, 0x42, 0xd6, 0xdb, 0x38, 0xba, 0x17, 0x12,
     0x8c, 0x76, 0x83, 0x38, 0xd8, 0x23, 0x02, 0x38, 0x26, 0xe3, 0xe7, 0xe2,
     0x5e, 0xcb, 0xc9, 0x90, 0xd2, 0x46, 0x27, 0x84, 0x77, 0x41, 0x6b, 0xb5,
     0x7a, 0x4a, 0x4f, 0x45, 0xaa, 0xab, 0x50, 0xa7, 0x58, 0x35, 0xe8, 0xa9,
     0x27, 0xc1, 0xb8, 0xa9, 0x32, 0x03, 0x02, 0x3d, 0x19, 0x77, 0x5a, 0xd2,
     0x0c, 0x52, 0x08, 0x01, 0xfa, 0xb9, 0xb2, 0x86, 0xfd, 0x24, 0x73, 0xc3,
     0x39, 0xde, 0x4f, 0x86, 0x93, 0x19, 0xd7, 0xd5, 0x65, 0x00, 0xf1, 0x2d,
     0x0c, 0x6f, 0x3c, 0x21, 0xd0, 0xc6, 0x27, 0x99, 0x05, 0x19, 0x7c, 0x0d,
     0x57, 0x33, 0x4f, 0x8c, 0x2f, 0x72, 0x97, 0x5a, 0xfa, 0x08, 0x51, 0x51,
     0xbc, 0x56, 0xd4, 0xc4, 0xed, 0x01, 0xeb, 0xe2, 0x6a, 0x82, 0xc6, 0x4c,
     0x09, 0x76, 0xe3, 0xfa, 0x87, 0xe2, 0xd7, 0x68, 0x13, 0xa5, 0xcf, 0x32,
     0xa2, 0x16, 0x6c, 0x53, 0x50, 0x2d, 0xd2, 0x58, 0xe4, 0x67, 0x18, 0x7b,
     0x8a, 0x84, 0xe3, 0xa4, 0x49, 0x14, 0x64, 0xd5, 0x06, 0x68, 0xc7, 0x45,
     0x68, 0xeb, 0x4a, 0xb0]"

definition defaultConfig :: config where
  "defaultConfig = \<lparr> signature = bytes_of ''SEC.'', salt = defaultSalt, gKey = [] \<rparr>"

definition SetSignature :: "config \<Rightarrow> bytes \<Rightarrow> config outcome" where
  "SetSignature cfg s =
     (if length s = 0 then Panics ''signature can't be empty''
      else Returns (cfg\<lparr>signature := s\<rparr>))"

definition SetSalt :: "config \<Rightarrow> bytes \<Rightarrow> config" where
  "SetSalt cfg sa = cfg\<lparr>salt := sa\<rparr>"

definition setGlobalKey :: "config \<Rightarrow> bytes \<Rightarrow> error + config" where
  "setGlobalKey cfg k =
     (if length k \<noteq> keySz then Inl ErrInvalidKeySz
      else Inr (cfg\<lparr>gKey := k\<rparr>))"

section \<open>Key derivation\<close>

text \<open>
  \<^verbatim>\<open>deriveKey\<close> (secure.go, lines 161-180). The loop over \<^verbatim>\<open>range key\<close> writes every
  index of the fresh \<open>keySz\<close>-byte slice once.
\<close>

definition deriveKey :: "config \<Rightarrow> bytes \<Rightarrow> (error + bytes) outcome" where
  "deriveKey cfg pass =
     (if length pass = 0 then Returns (Inl (ErrorString ''empty passphrase''))
      else if length pass > keySz then Returns (Inl (ErrorString ''passphrase is too big''))
      else
        let startOffset = unat (pass ! 0) in
        if SaltSz \<le> startOffset
        then Panics ''start offset overflows the salt array size''
        else Returns (Inr (map (\<lambda>i. (pass ! (i mod length pass)) XOR
                                     (salt cfg ! ((i + startOffset) mod SaltSz)))
                               [0..<keySz])))"

definition SetPassphrase :: "config \<Rightarrow> bytes \<Rightarrow> (error + config) outcome" where
  "SetPassphrase cfg b =
     (case deriveKey cfg b of
        Panics m \<Rightarrow> Panics m
      | Returns (Inl err) \<Rightarrow> Returns (Inl err)
      | Returns (Inr k) \<Rightarrow> Returns (setGlobalKey cfg k))"

section \<open>Library functions the package calls\<close>

subsection \<open>\<^verbatim>\<open>strings.TrimSpace\<close>\<close>

text \<open>
  \<^verbatim>\<open>strings.TrimSpace\<close> removes leading and trailing white space as \<^verbatim>\<open>unicode.IsSpace\<close>
  defines it, reading the string as UTF-8. \<open>spaceRunes\<close> lists the UTF-8 encodings of
  those runes: tab, LF, VT, FF, CR, space, U+0085, U+00A0, U+1680, U+2000 to U+200A,
  U+2028, U+2029, U+202F, U+205F and U+3000. A byte sequence that is not one of these
  encodings decodes to a rune that is not white space (an invalid sequence to
  \<^verbatim>\<open>RuneError\<close>), and trimming stops there.
\<close>

definition spaceRunes :: "bytes list" where
  "spaceRunes =
    [[0x09], [0x0A], [0x0B], [0x0C], [0x0D], [0x20],
     [0xC2, 0x85], [0xC2, 0xA0],
     [0xE1, 0x9A, 0x80],
     [0xE2, 0x80, 0x80], [0xE2, 0x80, 0x81], [0xE2, 0x80, 0x82], [0xE2, 0x80, 0x83],
     [0xE2, 0x80, 0x84], [0xE2, 0x80, 0x85], [0xE2, 0x80, 0x86], [0xE2, 0x80, 0x87],
     [0xE2, 0x80, 0x88], [0xE2, 0x80, 0x89], [0xE2, 0x80, 0x8A],
     [0xE2, 0x80, 0xA8], [0xE2, 0x80, 0xA9], [0xE2, 0x80, 0xAF],
     [0xE2, 0x81, 0x9F],
     [0xE3, 0x80, 0x80]]"

text \<open>
  \<open>stripRunes es s\<close> removes from the front of \<open>s\<close>, one after the other, every
  leading occurrence of an encoding in \<open>es\<close>.
\<close>

function stripRunes :: "bytes list \<Rightarrow> bytes \<Rightarrow> bytes" where
  "stripRunes es s =
     (case find (\<lambda>e. e \<noteq> [] \<and> take (length e) s = e) es of
        None \<Rightarrow> s
      | Some e \<Rightarrow> stripRunes es (drop (length e) s))"
  by pat_completeness auto
termination
proof (relation "measure (\<lambda>(es, s). length s)")
  show "wf (measure (\<lambda>(es, s). length s))" by simp
next
  fix es :: "bytes list" and s e :: bytes
  assume "find (\<lambda>e. e \<noteq> [] \<and> take (length e) s = e) es = Some e"
  then have "e \<noteq> [] \<and> take (length e) s = e"
    by (auto simp: find_Some_iff)
  then have "0 < length e" and "length e \<le> length s"
    using length_take [of "length e" s] by auto
  then show "((es, drop (length e) s), (es, s)) \<in> measure (\<lambda>(es, s). length s)"
    by (cases e) auto
qed

declare stripRunes.simps [simp del]

text \<open>
  The trailing side reads the last rune (\<^verbatim>\<open>utf8.DecodeLastRuneInString\<close>): the string
  ends with white space exactly when it ends with one of the encodings.
\<close>

definition TrimSpace :: "bytes \<Rightarrow> bytes" where
  "TrimSpace s = rev (stripRunes (map rev spaceRunes) (rev (stripRunes spaceRunes s)))"

definition startsWithSpace :: "bytes \<Rightarrow> bool" where
  "startsWithSpace s = list_ex (\<lambda>e. take (length e) s = e) spaceRunes"

definition endsWithSpace :: "bytes \<Rightarrow> bool" where
  "endsWithSpace s = list_ex (\<lambda>e. take (length e) (rev s) = rev e) spaceRunes"

subsection \<open>\<^verbatim>\<open>base64.StdEncoding\<close>\<close>

text \<open>
  The standard alphabet with \<^verbatim>\<open>=\<close> padding. \<open>EncodeToString\<close> packs three bytes into
  a 24-bit value and emits four 6-bit digits; one or two remaining bytes are padded.
\<close>

definition encodeStd :: bytes where
  "encodeStd = bytes_of ''ABCDEFGHIJKLMNOPQRSTUVWXYZabcdefghijklmnopqrstuvwxyz0123456789+/''"

definition StdPadding :: byte where
  "StdPadding = 0x3D"

fun EncodeToString :: "bytes \<Rightarrow> bytes" where
  "EncodeToString [] = []"
| "EncodeToString [a] =
     (let val = unat a * 2 ^ 16 in
      [encodeStd ! (val div 2 ^ 18 mod 64), encodeStd ! (val div 2 ^ 12 mod 64),
       StdPadding, StdPadding])"
| "EncodeToString [a, b] =
     (let val = unat a * 2 ^ 16 + unat b * 2 ^ 8 in
      [encodeStd ! (val div 2 ^ 18 mod 64), encodeStd ! (val div 2 ^ 12 mod 64),
       encodeStd ! (val div 2 ^ 6 mod 64), StdPadding])"
| "EncodeToString (a # b # c # rest) =
     (let val = unat a * 2 ^ 16 + unat b * 2 ^ 8 + unat c in
      [encodeStd ! (val div 2 ^ 18 mod 64), encodeStd ! (val div 2 ^ 12 mod 64),
       encodeStd ! (val div 2 ^ 6 mod 64), encodeStd ! (val mod 64)] @ EncodeToString rest)"

text \<open>
  The decoder's table maps a character to its index in the alphabet; every other byte
  is invalid.
\<close>

fun decodeMap :: "bytes \<Rightarrow> byte \<Rightarrow> nat option" where
  "decodeMap [] x = None"
| "decodeMap (y # ys) x = (if x = y then Some 0 else map_option Suc (decodeMap ys x))"

text \<open>
  One quantum is four characters. Padding may only close the input: \<^verbatim>\<open>xx==\<close> gives
  one byte and \<^verbatim>\<open>xxx=\<close> two; an input that ends inside a quantum, a character outside
  the alphabet, misplaced padding and anything after the padding are
  \<^verbatim>\<open>CorruptInputError\<close>. The decoder is not strict: the unused low bits of a padded
  quantum are not checked.
\<close>

fun decodeQuanta :: "bytes \<Rightarrow> error + bytes" where
  "decodeQuanta [] = Inr []"
| "decodeQuanta (a # b # c # d # rest) =
     (case (decodeMap encodeStd a, decodeMap encodeStd b) of
        (Some x, Some y) \<Rightarrow>
          (case decodeMap encodeStd c of
             Some z \<Rightarrow>
               (case decodeMap encodeStd d of
                  Some w \<Rightarrow>
                    (let val = x * 2 ^ 18 + y * 2 ^ 12 + z * 2 ^ 6 + w in
                     case decodeQuanta rest of
                       Inl err \<Rightarrow> Inl err
                     | Inr out \<Rightarrow>
                         Inr ([of_nat (val div 2 ^ 16), of_nat (val div 2 ^ 8), of_nat val] @ out))
                | None \<Rightarrow>
                    if d = StdPadding \<and> rest = []
                    then (let val = x * 2 ^ 18 + y * 2 ^ 12 + z * 2 ^ 6 in
                          Inr [of_nat (val div 2 ^ 16), of_nat (val div 2 ^ 8)])
                    else Inl CorruptInputError)
           | None \<Rightarrow>
               if c = StdPadding \<and> d = StdPadding \<and> rest = []
               then (let val = x * 2 ^ 18 + y * 2 ^ 12 in Inr [of_nat (val div 2 ^ 16)])
               else Inl CorruptInputError)
      | _ \<Rightarrow> Inl CorruptInputError)"
| "decodeQuanta s = Inl CorruptInputError"

text \<open>Line feeds and carriage returns are skipped wherever they stand.\<close>

definition DecodeString :: "bytes \<Rightarrow> error + bytes" where
  "DecodeString s = decodeQuanta (filter (\<lambda>ch. ch \<noteq> 0x0A \<and> ch \<noteq> 0x0D) s)"

subsection \<open>AES-GCM and the random source\<close>

text \<open>
  \<^verbatim>\<open>cipher.AEAD\<close> as the package uses it: \<open>Seal nonce plaintext additionalData\<close> and
  \<open>Open nonce ciphertext additionalData\<close>, both with a \<^verbatim>\<open>nil\<close> destination. The
  cipher itself is Go's \<^verbatim>\<open>crypto/aes\<close> and \<^verbatim>\<open>crypto/cipher\<close>; it is a parameter
  \<open>G\<close> here, giving the AEAD of a key. \<^verbatim>\<open>aes.NewCipher\<close> accepts keys of 16, 24 and
  32 bytes and returns \<^verbatim>\<open>KeySizeError\<close> for every other length; \<^verbatim>\<open>cipher.NewGCM\<close>
  accepts every AES block.
\<close>

record aead =
  Seal :: "bytes \<Rightarrow> bytes \<Rightarrow> bytes \<Rightarrow> bytes"
  Open :: "bytes \<Rightarrow> bytes \<Rightarrow> bytes \<Rightarrow> error + bytes"

type_synonym aesgcm = "bytes \<Rightarrow> aead"

definition initGCM :: "aesgcm \<Rightarrow> bytes \<Rightarrow> error + aead" where
  "initGCM G key =
     (if length key = 16 \<or> length key = 24 \<or> length key = 32 then Inr (G key)
      else Inl (KeySizeError (length key)))"

text \<open>
  What the package relies on, for a key the cipher accepts and a nonce of \<open>nonceSz\<close>
  bytes: opening what was sealed, under the same key, nonce and additional data, gives
  the plaintext back, and a sealed message is the plaintext's length plus the 16-byte
  tag. (GCM's limit of 64 GiB on a plaintext is not modelled.)
\<close>

definition gcmTagSize :: nat where "gcmTagSize = 16"

definition aead_correct :: "aesgcm \<Rightarrow> bool" where
  "aead_correct G \<longleftrightarrow>
     (\<forall>key n pt ad.
        (length key = 16 \<or> length key = 24 \<or> length key = 32) \<and> length n = nonceSz \<longrightarrow>
        Open (G key) n (Seal (G key) n pt ad) ad = Inr pt \<and>
        length (Seal (G key) n pt ad) = length pt + gcmTagSize)"

section \<open>Packing and armouring\<close>

record ciphermsg =
  nonce :: bytes
  ciphertext :: bytes
  additionalData :: bytes

text \<open>
  Go's \<^verbatim>\<open>copy(dst[off:], src)\<close> for \<open>off \<le> length dst\<close>: it copies as many elements
  as fit and leaves the rest of \<open>dst\<close> as it was.
\<close>

definition copy_at :: "'a list \<Rightarrow> nat \<Rightarrow> 'a list \<Rightarrow> 'a list" where
  "copy_at dst off src =
     (let n = min (length dst - off) (length src) in
      take off dst @ take n src @ drop (off + n) dst)"

text \<open>\<^verbatim>\<open>pack\<close> (secure.go, lines 258-279).\<close>

definition pack :: "ciphermsg \<Rightarrow> error + bytes" where
  "pack cm =
     (if length (nonce cm) = 0 then Inl (ErrorString ''pack: empty nonce'')
      else if length (ciphertext cm) = 0 then Inl (ErrorString ''pack: no ciphertext'')
      else
        let dataLen = length (additionalData cm) in
        if dataLen > maxDataSz then Inl ErrDataOverflow
        else
          let packed = replicate (nonceSz + length (ciphertext cm) + 1 + dataLen) (0 :: byte);
              packed = packed[0 := of_nat dataLen];
              packed = (if dataLen > 0 then copy_at packed adlSz (additionalData cm) else packed);
              packed = copy_at packed (adlSz + dataLen) (nonce cm);
              packed = copy_at packed (adlSz + dataLen + nonceSz) (ciphertext cm)
          in Inr packed)"

text \<open>\<^verbatim>\<open>armor\<close> and \<^verbatim>\<open>unarmor\<close> (secure.go, lines 281-296).\<close>

definition armor :: "config \<Rightarrow> bytes \<Rightarrow> bytes" where
  "armor cfg packed = signature cfg @ EncodeToString packed"

definition unarmor :: "config \<Rightarrow> bytes \<Rightarrow> error + bytes" where
  "unarmor cfg s0 =
     (let sigSz = length (signature cfg);
          s = TrimSpace s0
      in if length s < sigSz \<or> take sigSz s \<noteq> signature cfg then Inl ErrNotEncrypted
         else case DecodeString (drop sigSz s) of
                Inl err \<Rightarrow> Inl err
              | Inr packed \<Rightarrow> Inr packed)"

text \<open>
  \<^verbatim>\<open>unpack\<close> (secure.go, lines 304-323). \<open>payloadSz\<close> is negative for a buffer
  shorter than \<open>adlSz + nonceSz\<close>, so the sizes are integers. The slices taken after
  the check are within the buffer.
\<close>

definition unpack :: "bytes \<Rightarrow> error + ciphermsg" where
  "unpack packed =
     (if length packed = 0 then Inl (ErrorString ''unpack: empty input'')
      else
        let dataLen = int (unat (packed ! 0));
            payloadSz = int (length packed) - int adlSz - int nonceSz
        in if dataLen > payloadSz \<or> payloadSz - dataLen = 0 then Inl (CorruptError packed)
           else
             let n = nat dataLen in
             Inr \<lparr> nonce = take nonceSz (drop (adlSz + n) packed),
                   ciphertext = drop (adlSz + n + nonceSz) packed,
                   additionalData = (if dataLen > 0 then take n (drop adlSz packed) else []) \<rparr>)"

section \<open>Encryption and decryption\<close>

text \<open>
  \<^verbatim>\<open>encrypt\<close> (secure.go, lines 215-247). \<open>rnd\<close> is the outcome of
  \<^verbatim>\<open>io.ReadFull(rand.Reader, nonce)\<close> on the \<open>nonceSz\<close>-byte buffer: an error, or the
  bytes that now fill the buffer.
\<close>

definition encrypt :: "aesgcm \<Rightarrow> error + bytes \<Rightarrow> config \<Rightarrow> bytes \<Rightarrow> bytes \<Rightarrow> bytes \<Rightarrow> error + bytes" where
  "encrypt G rnd cfg plaintext key ad =
     (if length key = 0 then Inl ErrNoEncryptionKey
      else if length key \<noteq> keySz then Inl ErrInvalidKeySz
      else if length plaintext = 0 then Inl (ErrorString ''nothing to encrypt'')
      else if length ad > maxDataSz
      then Inl (ErrorString ''size of additional data can't exceed 255 B'')
      else case initGCM G key of
             Inl err \<Rightarrow> Inl err
           | Inr gcm \<Rightarrow>
               (case rnd of
                  Inl err \<Rightarrow> Inl err
                | Inr nc \<Rightarrow>
                    let ct = Seal gcm nc plaintext ad in
                    (case pack \<lparr> nonce = nc, ciphertext = ct, additionalData = ad \<rparr> of
                       Inl err \<Rightarrow> Inl err
                     | Inr packed \<Rightarrow> Inr (armor cfg packed))))"

text \<open>
  \<^verbatim>\<open>decrypt\<close> (secure.go, lines 325-350) returns a string and an error: with
  \<^verbatim>\<open>ErrNotEncrypted\<close> the string is the input, with every other error it is empty.
\<close>

definition decrypt :: "aesgcm \<Rightarrow> config \<Rightarrow> bytes \<Rightarrow> bytes \<Rightarrow> bytes \<times> error option" where
  "decrypt G cfg s key =
     (case unarmor cfg s of
        Inl err \<Rightarrow> if err = ErrNotEncrypted then (s, Some err) else ([], Some err)
      | Inr packed \<Rightarrow>
          if length key = 0 then ([], Some ErrNoEncryptionKey)
          else case unpack packed of
                 Inl err \<Rightarrow> ([], Some err)
               | Inr cm \<Rightarrow>
                   (case initGCM G key of
                      Inl err \<Rightarrow> ([], Some err)
                    | Inr gcm \<Rightarrow>
                        (case Open gcm (nonce cm) (ciphertext cm) (additionalData cm) of
                           Inl err \<Rightarrow> ([], Some (CipherError err))
                         | Inr plaintext \<Rightarrow> (plaintext, None))))"

definition Encrypt :: "aesgcm \<Rightarrow> error + bytes \<Rightarrow> config \<Rightarrow> bytes \<Rightarrow> error + bytes" where
  "Encrypt G rnd cfg plaintext = encrypt G rnd cfg plaintext (gKey cfg) []"

definition Decrypt :: "aesgcm \<Rightarrow> config \<Rightarrow> bytes \<Rightarrow> bytes \<times> error option" where
  "Decrypt G cfg s = decrypt G cfg s (gKey cfg)"

definition EncryptWithPassphrase ::
  "aesgcm \<Rightarrow> error + bytes \<Rightarrow> config \<Rightarrow> bytes \<Rightarrow> bytes \<Rightarrow> (error + bytes) outcome" where
  "EncryptWithPassphrase G rnd cfg plaintext passphrase =
     (case deriveKey cfg passphrase of
        Panics m \<Rightarrow> Panics m
      | Returns (Inl err) \<Rightarrow> Returns (Inl err)
      | Returns (Inr key) \<Rightarrow> Returns (encrypt G rnd cfg plaintext key []))"

definition DecryptWithPassphrase ::
  "aesgcm \<Rightarrow> config \<Rightarrow> bytes \<Rightarrow> bytes \<Rightarrow> (bytes \<times> error option) outcome" where
  "DecryptWithPassphrase G cfg s passphrase =
     (case deriveKey cfg passphrase of
        Panics m \<Rightarrow> Panics m
      | Returns (Inl err) \<Rightarrow> Returns ([], Some err)
      | Returns (Inr key) \<Rightarrow> Returns (decrypt G cfg s key))"

section \<open>A stand-in cipher for examples\<close>

text \<open>
  The theorems below hold for every cipher \<open>G\<close>. To evaluate \<open>encrypt\<close> and
  \<open>decrypt\<close> on concrete inputs an instance is needed: \<open>demoAEAD\<close> leaves the
  plaintext as it is and appends sixteen zero bytes as the tag, which \<open>Open\<close> checks.
  It stands for no property of AES-GCM beyond \<open>aead_correct\<close>.
\<close>

definition demoAEAD :: aesgcm where
  "demoAEAD key =
     \<lparr> Seal = (\<lambda>n pt ad. pt @ replicate gcmTagSize 0),
       Open = (\<lambda>n ct ad.
                if gcmTagSize \<le> length ct \<and>
                   drop (length ct - gcmTagSize) ct = replicate gcmTagSize 0
                then Inr (take (length ct - gcmTagSize) ct)
                else Inl (ErrorString ''cipher: message authentication failed'')) \<rparr>"

section \<open>Properties\<close>

subsection \<open>Constants\<close>

lemma keySz_32: "keySz = 32"
  by (simp add: keySz_def keyBits_def)

lemma SaltSz_256: "SaltSz = 256"
  by (simp add: SaltSz_def keySz_32)

lemma maxDataSz_255: "maxDataSz = 255"
  by (simp add: maxDataSz_def adlSz_def)

lemma unat_byte_less: "unat (b :: byte) < 256"
  using unsigned_less [of b] by simp

lemma defaultSalt_length: "length (salt defaultConfig) = SaltSz"
  by (simp add: defaultConfig_def defaultSalt_def SaltSz_256)

subsection \<open>Key derivation\<close>

lemma deriveKey_salt_only:
  "salt cfg' = salt cfg \<Longrightarrow> deriveKey cfg' pass = deriveKey cfg pass"
  unfolding deriveKey_def by (simp only:)

text \<open>
  C3. \<open>deriveKey\<close> is a function of the passphrase and the salt alone. It fails with
  the error "empty passphrase" exactly when the passphrase is empty and with
  "passphrase is too big" exactly when it is longer than 32 bytes; for every other
  passphrase it returns a key of exactly 32 bytes with
  \<open>key[i] = pass[i mod len(pass)] XOR salt[(i + pass[0]) mod 256]\<close> at every index
  \<open>i\<close> below 32.
\<close>

theorem deriveKey_spec:
  assumes "length (salt cfg) = SaltSz"
  shows "(length pass = 0 \<longrightarrow>
            deriveKey cfg pass = Returns (Inl (ErrorString ''empty passphrase'')))
       \<and> (length pass > 32 \<longrightarrow>
            deriveKey cfg pass = Returns (Inl (ErrorString ''passphrase is too big'')))
       \<and> (0 < length pass \<and> length pass \<le> 32 \<longrightarrow>
            (\<exists>key. deriveKey cfg pass = Returns (Inr key) \<and> length key = 32 \<and>
               (\<forall>i<32. key ! i = pass ! (i mod length pass) XOR
                                  salt cfg ! ((i + unat (pass ! 0)) mod 256))))
       \<and> (\<forall>cfg'. salt cfg' = salt cfg \<longrightarrow> deriveKey cfg' pass = deriveKey cfg pass)"
proof -
  have off: "\<not> SaltSz \<le> unat (pass ! 0)"
    using unat_byte_less [of "pass ! 0"] by (simp add: SaltSz_256)
  have "(length pass = 0 \<longrightarrow>
            deriveKey cfg pass = Returns (Inl (ErrorString ''empty passphrase'')))
       \<and> (length pass > 32 \<longrightarrow>
            deriveKey cfg pass = Returns (Inl (ErrorString ''passphrase is too big'')))
       \<and> (0 < length pass \<and> length pass \<le> 32 \<longrightarrow>
            (\<exists>key. deriveKey cfg pass = Returns (Inr key) \<and> length key = 32 \<and>
               (\<forall>i<32. key ! i = pass ! (i mod length pass) XOR
                                  salt cfg ! ((i + unat (pass ! 0)) mod 256))))"
    using off by (simp add: deriveKey_def keySz_32 SaltSz_256 Let_def)
  moreover have "\<forall>cfg'. salt cfg' = salt cfg \<longrightarrow> deriveKey cfg' pass = deriveKey cfg pass"
    using deriveKey_salt_only by blast
  ultimately show ?thesis by blast
qed

theorem deriveKey_spec_witness:
  "length (salt defaultConfig) = SaltSz
   \<and> deriveKey defaultConfig [] = Returns (Inl (ErrorString ''empty passphrase''))
   \<and> deriveKey defaultConfig (replicate 33 0) = Returns (Inl (ErrorString ''passphrase is too big''))
   \<and> (\<exists>key. deriveKey defaultConfig [0, 0, 0, 0, 0, 0] = Returns (Inr key) \<and> length key = 32 \<and>
        (\<forall>i<32. key ! i = [0, 0, 0, 0, 0, 0] ! (i mod 6) XOR
                           salt defaultConfig ! ((i + unat (0 :: byte)) mod 256)))
   \<and> deriveKey (defaultConfig \<lparr> signature := [0x58] \<rparr>) [0, 0, 0, 0, 0, 0]
       = deriveKey defaultConfig [0, 0, 0, 0, 0, 0]"
proof -
  have h: "length (salt defaultConfig) = SaltSz"
    by (rule defaultSalt_length)
  note r = deriveKey_spec [OF h, of "[0, 0, 0, 0, 0, 0]"]
  have s: "deriveKey (defaultConfig \<lparr> signature := [0x58] \<rparr>) [0, 0, 0, 0, 0, 0]
           = deriveKey defaultConfig [0, 0, 0, 0, 0, 0]"
    by (rule r [THEN conjunct2, THEN conjunct2, THEN conjunct2, rule_format]) simp
  have a: "deriveKey defaultConfig [] = Returns (Inl (ErrorString ''empty passphrase''))"
    using deriveKey_spec [OF h, of "[]", THEN conjunct1] by simp
  have b: "deriveKey defaultConfig (replicate 33 0)
           = Returns (Inl (ErrorString ''passphrase is too big''))"
    using deriveKey_spec [OF h, of "replicate 33 0", THEN conjunct2, THEN conjunct1] by simp
  have c: "\<exists>key. deriveKey defaultConfig [0, 0, 0, 0, 0, 0] = Returns (Inr key) \<and> length key = 32 \<and>
        (\<forall>i<32. key ! i = [0, 0, 0, 0, 0, 0] ! (i mod 6) XOR
                           salt defaultConfig ! ((i + unat (0 :: byte)) mod 256))"
    using r [THEN conjunct2, THEN conjunct2, THEN conjunct1] by simp
  from h a b c s show ?thesis by (intro conjI)
qed

text \<open>
  C9. The panic in \<open>deriveKey\<close> is unreachable: the start offset is one byte, at most
  255, and the salt has \<open>SaltSz = 256\<close> entries. So \<open>deriveKey\<close> always returns (a key
  or an error), whatever the passphrase and the salt; for a passphrase of 1 to 32
  bytes it returns a key.
\<close>

theorem deriveKey_never_panics:
  "(\<exists>r. deriveKey cfg pass = Returns r)
   \<and> (\<forall>m. deriveKey cfg pass \<noteq> Panics m)
   \<and> (0 < length pass \<and> length pass \<le> keySz \<longrightarrow>
        unat (pass ! 0) < SaltSz \<and> (\<exists>key. deriveKey cfg pass = Returns (Inr key)))"
proof -
  have "\<not> SaltSz \<le> unat (pass ! 0)"
    using unat_byte_less [of "pass ! 0"] by (simp add: SaltSz_256)
  then show ?thesis
    by (simp add: deriveKey_def Let_def)
qed

theorem deriveKey_never_panics_witness:
  "(\<exists>r. deriveKey defaultConfig [255] = Returns r)
   \<and> (\<forall>m. deriveKey defaultConfig [255] \<noteq> Panics m)
   \<and> 0 < length [255 :: byte] \<and> length [255 :: byte] \<le> keySz
   \<and> unat ([255 :: byte] ! 0) < SaltSz
   \<and> (\<exists>key. deriveKey defaultConfig [255] = Returns (Inr key))"
  using deriveKey_never_panics [of defaultConfig "[255]"] by (simp add: keySz_32)

subsection \<open>Evaluation on concrete inputs\<close>

lemmas trim_eval = TrimSpace_def spaceRunes_def stripRunes.simps bytes_of_def

lemmas b64_eval = DecodeString_def encodeStd_def StdPadding_def bytes_of_def

lemma replicate_12: "replicate 12 x = [x, x, x, x, x, x, x, x, x, x, x, x]"
  by (simp add: numeral_eq_Suc)

lemma replicate_16:
  "replicate 16 x = [x, x, x, x, x, x, x, x, x, x, x, x, x, x, x, x]"
  by (simp add: numeral_eq_Suc)

lemma demoAEAD_correct: "aead_correct demoAEAD"
  by (simp add: aead_correct_def demoAEAD_def)

subsection \<open>Packing\<close>

lemma copy_at_append:
  "length pre = off \<Longrightarrow> length src \<le> length rest \<Longrightarrow>
   copy_at (pre @ rest) off src = pre @ src @ drop (length src) rest"
  by (simp add: copy_at_def min_def)

lemma pack_layout:
  assumes n: "length (nonce cm) = nonceSz"
    and c: "ciphertext cm \<noteq> []"
    and d: "length (additionalData cm) \<le> maxDataSz"
  shows "pack cm = Inr (of_nat (length (additionalData cm)) #
                        additionalData cm @ nonce cm @ ciphertext cm)"
proof -
  let ?ad = "additionalData cm" and ?nc = "nonce cm" and ?ct = "ciphertext cm"
  let ?x = "of_nat (length ?ad) :: byte"
  let ?zn = "replicate (length ?nc) (0 :: byte)" and ?zc = "replicate (length ?ct) (0 :: byte)"
  have b0: "(replicate (nonceSz + length ?ct + 1 + length ?ad) (0 :: byte))[0 := ?x]
            = [?x] @ replicate (length ?ad) 0 @ ?zn @ ?zc"
  proof -
    have r: "nonceSz + length ?ct + 1 + length ?ad = Suc (length ?ad + (length ?nc + length ?ct))"
      by (simp add: n)
    show ?thesis unfolding r by (simp add: replicate_add)
  qed
  have b1: "copy_at ([?x] @ replicate (length ?ad) 0 @ ?zn @ ?zc) adlSz ?ad
            = ([?x] @ ?ad) @ ?zn @ ?zc"
    by (subst copy_at_append) (simp_all add: adlSz_def)
  have b1': "length ?ad = 0 \<Longrightarrow>
            [?x] @ replicate (length ?ad) 0 @ ?zn @ ?zc = ([?x] @ ?ad) @ ?zn @ ?zc"
    by simp
  have b2: "copy_at (([?x] @ ?ad) @ ?zn @ ?zc) (adlSz + length ?ad) ?nc
            = ([?x] @ ?ad @ ?nc) @ ?zc"
    by (subst copy_at_append) (simp_all add: adlSz_def)
  have b3: "copy_at (([?x] @ ?ad @ ?nc) @ ?zc) (adlSz + length ?ad + nonceSz) ?ct
            = [?x] @ ?ad @ ?nc @ ?ct"
    by (subst copy_at_append) (simp_all add: adlSz_def n)
  show ?thesis
  proof (cases "length ?ad = 0")
    case True
    with n c d b0 b1' [OF True] b2 b3 show ?thesis
      unfolding pack_def Let_def by (simp add: nonceSz_def)
  next
    case False
    with n c d b0 b1 b2 b3 show ?thesis
      unfolding pack_def Let_def by (simp add: nonceSz_def)
  qed
qed

lemma unat_length_byte:
  "n \<le> maxDataSz \<Longrightarrow> unat (of_nat n :: byte) = n"
  by (simp add: maxDataSz_255 unat_of_nat)

lemma unpack_layout:
  assumes n: "length nc = nonceSz"
    and c: "ct \<noteq> []"
    and d: "length ad \<le> maxDataSz"
  shows "unpack (of_nat (length ad) # ad @ nc @ ct)
         = Inr \<lparr> nonce = nc, ciphertext = ct, additionalData = ad \<rparr>"
  using n c d unfolding unpack_def Let_def
  by (simp add: unat_length_byte adlSz_def)

text \<open>
  C4, as the code has it. \<open>pack\<close> lays the buffer out for a nonce of \<open>nonceSz\<close>
  bytes and checks only that the nonce is not empty. For every message whose nonce has
  exactly \<open>nonceSz = 12\<close> bytes, with a non-empty ciphertext and at most 255 bytes of
  additional data, \<open>pack\<close> succeeds and returns exactly
  \<open>byte(len(additionalData)) || additionalData || nonce || ciphertext\<close>; the leading
  byte is 0 when the additional data is empty. \<open>pack\<close> fails with \<open>ErrDataOverflow\<close>
  when the additional data is longer than 255 bytes (nonce and ciphertext not empty),
  and with a generic error when the nonce or the ciphertext is empty.
\<close>

theorem pack_spec:
  "(length (nonce cm) = nonceSz \<and> ciphertext cm \<noteq> [] \<and> length (additionalData cm) \<le> 255 \<longrightarrow>
      pack cm = Inr (of_nat (length (additionalData cm)) #
                     additionalData cm @ nonce cm @ ciphertext cm)
      \<and> (additionalData cm = [] \<longrightarrow> pack cm = Inr (0 # nonce cm @ ciphertext cm)))
   \<and> (nonce cm \<noteq> [] \<and> ciphertext cm \<noteq> [] \<and> length (additionalData cm) > 255 \<longrightarrow>
      pack cm = Inl ErrDataOverflow)
   \<and> (nonce cm = [] \<or> ciphertext cm = [] \<longrightarrow> (\<exists>msg. pack cm = Inl (ErrorString msg)))"
proof (intro conjI impI)
  assume a: "length (nonce cm) = nonceSz \<and> ciphertext cm \<noteq> [] \<and> length (additionalData cm) \<le> 255"
  then show l: "pack cm = Inr (of_nat (length (additionalData cm)) #
                     additionalData cm @ nonce cm @ ciphertext cm)"
    by (simp add: pack_layout maxDataSz_255)
  assume "additionalData cm = []"
  with l show "pack cm = Inr (0 # nonce cm @ ciphertext cm)" by simp
next
  assume "nonce cm \<noteq> [] \<and> ciphertext cm \<noteq> [] \<and> length (additionalData cm) > 255"
  then show "pack cm = Inl ErrDataOverflow"
    by (simp add: pack_def maxDataSz_255)
next
  assume "nonce cm = [] \<or> ciphertext cm = []"
  then show "\<exists>msg. pack cm = Inl (ErrorString msg)"
    by (auto simp: pack_def)
qed

theorem pack_spec_witness:
  "pack \<lparr> nonce = replicate 12 0xCC, ciphertext = [4, 5, 6], additionalData = [1, 2, 3] \<rparr>
     = Inr ([3, 1, 2, 3] @ replicate 12 0xCC @ [4, 5, 6])
   \<and> pack \<lparr> nonce = replicate 12 0xCC, ciphertext = [255, 254, 253], additionalData = [] \<rparr>
     = Inr ([0] @ replicate 12 0xCC @ [255, 254, 253])
   \<and> pack \<lparr> nonce = replicate 12 0xCC, ciphertext = [4, 5, 6], additionalData = replicate 256 0 \<rparr>
     = Inl ErrDataOverflow
   \<and> (\<exists>msg. pack \<lparr> nonce = [], ciphertext = [255, 254, 253], additionalData = [1, 2, 3] \<rparr>
          = Inl (ErrorString msg))"
  using pack_spec [of "\<lparr> nonce = replicate 12 0xCC, ciphertext = [4, 5, 6], additionalData = [1, 2, 3] \<rparr>"]
    pack_spec [of "\<lparr> nonce = replicate 12 0xCC, ciphertext = [255, 254, 253], additionalData = [] \<rparr>"]
    pack_spec [of "\<lparr> nonce = replicate 12 0xCC, ciphertext = [4, 5, 6], additionalData = replicate 256 0 \<rparr>"]
    pack_spec [of "\<lparr> nonce = [], ciphertext = [255, 254, 253], additionalData = [1, 2, 3] \<rparr>"]
  by (simp add: nonceSz_def)

text \<open>
  With a one-byte nonce, a one-byte ciphertext and no additional data the buffer is
  fourteen bytes long: the nonce, eleven zero bytes left from the allocation, then the
  ciphertext. It is not \<open>byte(0) || nonce || ciphertext\<close>.
\<close>

theorem pack_short_nonce_counterexample:
  "nonce \<lparr> nonce = [1], ciphertext = [2], additionalData = [] \<rparr> \<noteq> []
   \<and> ciphertext \<lparr> nonce = [1], ciphertext = [2], additionalData = [] \<rparr> \<noteq> []
   \<and> length (additionalData \<lparr> nonce = [1], ciphertext = [2], additionalData = [] \<rparr>) \<le> 255
   \<and> pack \<lparr> nonce = [1], ciphertext = [2], additionalData = [] \<rparr>
       = Inr [0, 1, 0, 0, 0, 0, 0, 0, 0, 0, 0, 0, 0, 2]
   \<and> pack \<lparr> nonce = [1], ciphertext = [2], additionalData = [] \<rparr> \<noteq> Inr ([0] @ [] @ [1] @ [2])"
  by (simp add: pack_def copy_at_def nonceSz_def adlSz_def maxDataSz_255 numeral_eq_Suc)

text \<open>
  C5, as the code has it. Every non-empty buffer shorter than
  \<open>1 + nonceSz + 1 = 14\<close> bytes, and every buffer whose leading length byte exceeds the
  available payload \<open>len(buf) - 1 - nonceSz\<close>, fails with \<open>CorruptError\<close> carrying the
  buffer; so does the one-byte buffer \<open>[0]\<close>. The empty buffer is caught by the guard
  before and fails with the generic error "unpack: empty input".
\<close>

theorem unpack_spec:
  "(packed \<noteq> [] \<and> length packed < 1 + nonceSz + 1 \<longrightarrow> unpack packed = Inl (CorruptError packed))
   \<and> (packed \<noteq> [] \<and> int (unat (packed ! 0)) > int (length packed) - 1 - int nonceSz \<longrightarrow>
        unpack packed = Inl (CorruptError packed))
   \<and> unpack [0] = Inl (CorruptError [0])
   \<and> unpack [] = Inl (ErrorString ''unpack: empty input'')"
proof -
  have "0 \<le> int (unat (packed ! 0))" by simp
  then show ?thesis
    unfolding unpack_def Let_def
    by (auto simp: adlSz_def nonceSz_def simp del: of_nat_unat)
qed

theorem unpack_spec_witness:
  "unpack [1, 0xDD] = Inl (CorruptError [1, 0xDD])
   \<and> unpack ([7, 1, 2, 3] @ replicate 12 0xCC @ [4, 5, 6])
       = Inl (CorruptError ([7, 1, 2, 3] @ replicate 12 0xCC @ [4, 5, 6]))"
  using unpack_spec [of "[1, 0xDD]"] unpack_spec [of "[7, 1, 2, 3] @ replicate 12 0xCC @ [4, 5, 6]"]
  by (simp add: nonceSz_def)

theorem unpack_empty_counterexample:
  "length ([] :: bytes) < 1 + nonceSz + 1
   \<and> unpack [] = Inl (ErrorString ''unpack: empty input'')
   \<and> unpack [] \<noteq> Inl (CorruptError [])"
  by (simp add: unpack_def)

subsection \<open>The errors of \<open>encrypt\<close> and \<open>decrypt\<close>\<close>

lemma decodeQuanta_error:
  "decodeQuanta s = Inl err \<Longrightarrow> err = CorruptInputError"
  by (induction s arbitrary: err rule: decodeQuanta.induct)
     (auto simp: Let_def split: option.splits sum.splits if_splits)

lemma unarmor_error:
  "unarmor cfg s = Inl err \<Longrightarrow> err = ErrNotEncrypted \<or> err = CorruptInputError"
  by (auto simp: unarmor_def DecodeString_def Let_def split: if_splits sum.splits
        dest: decodeQuanta_error)

lemma unpack_error:
  "unpack packed = Inl err \<Longrightarrow>
     err = ErrorString ''unpack: empty input'' \<or> err = CorruptError packed"
  by (auto simp: unpack_def Let_def split: if_splits)

text \<open>
  C8. \<open>encrypt\<close> checks its arguments in this order and stops at the first failure:
  \<open>ErrNoEncryptionKey\<close> for an empty key, \<open>ErrInvalidKeySz\<close> for a non-empty key that
  is not 32 bytes long, the generic error "nothing to encrypt" for an empty plaintext,
  and for more than 255 bytes of additional data the overflow error
  "size of additional data can't exceed 255 B" (a formatted error of its own, made
  before \<open>pack\<close> is reached). Whenever one of the preconditions fails, \<open>encrypt\<close>
  returns an error and no armoured string.
\<close>

theorem encrypt_preconditions:
  "(length key = 0 \<longrightarrow> encrypt G rnd cfg plaintext key ad = Inl ErrNoEncryptionKey)
   \<and> (length key \<noteq> 0 \<and> length key \<noteq> 32 \<longrightarrow>
        encrypt G rnd cfg plaintext key ad = Inl ErrInvalidKeySz)
   \<and> (length key = 32 \<and> length plaintext = 0 \<longrightarrow>
        encrypt G rnd cfg plaintext key ad = Inl (ErrorString ''nothing to encrypt''))
   \<and> (length key = 32 \<and> length plaintext \<noteq> 0 \<and> length ad > 255 \<longrightarrow>
        encrypt G rnd cfg plaintext key ad
          = Inl (ErrorString ''size of additional data can't exceed 255 B''))
   \<and> (length key \<noteq> 32 \<or> length plaintext = 0 \<or> length ad > 255 \<longrightarrow>
        (\<exists>err. encrypt G rnd cfg plaintext key ad = Inl err))"
  by (simp add: encrypt_def keySz_32 maxDataSz_255)

theorem encrypt_preconditions_witness:
  "encrypt demoAEAD (Inr (replicate 12 7)) defaultConfig (bytes_of ''plain text'') [] []
     = Inl ErrNoEncryptionKey
   \<and> encrypt demoAEAD (Inr (replicate 12 7)) defaultConfig (bytes_of ''plain text'')
         (replicate 16 1) []
     = Inl ErrInvalidKeySz
   \<and> encrypt demoAEAD (Inr (replicate 12 7)) defaultConfig [] (replicate 32 1) []
     = Inl (ErrorString ''nothing to encrypt'')
   \<and> encrypt demoAEAD (Inr (replicate 12 7)) defaultConfig (bytes_of ''plain text'')
         (replicate 32 1) (replicate 256 0)
     = Inl (ErrorString ''size of additional data can't exceed 255 B'')
   \<and> (\<exists>err. encrypt demoAEAD (Inr (replicate 12 7)) defaultConfig [] [] (replicate 256 0)
              = Inl err)"
  using
    encrypt_preconditions [of "[]" demoAEAD "Inr (replicate 12 7)" defaultConfig
      "[]" "replicate 256 0"]
    encrypt_preconditions [of "[]" demoAEAD "Inr (replicate 12 7)" defaultConfig
      "bytes_of ''plain text''" "[]"]
    encrypt_preconditions [of "replicate 16 1" demoAEAD "Inr (replicate 12 7)" defaultConfig
      "bytes_of ''plain text''" "[]"]
    encrypt_preconditions [of "replicate 32 1" demoAEAD "Inr (replicate 12 7)" defaultConfig
      "[]" "[]"]
    encrypt_preconditions [of "replicate 32 1" demoAEAD "Inr (replicate 12 7)" defaultConfig
      "bytes_of ''plain text''" "replicate 256 0"]
  by (simp add: bytes_of_def)

text \<open>
  C6. When the trimmed input is shorter than the signature or does not start with it,
  \<open>decrypt\<close> returns the input as it was given, together with \<open>ErrNotEncrypted\<close>,
  whatever the key (the empty key too). Every other failure of \<open>unarmor\<close> (malformed
  base64 after the signature) is returned with the empty string.
\<close>

theorem decrypt_not_encrypted:
  "(length (TrimSpace s) < length (signature cfg)
      \<or> take (length (signature cfg)) (TrimSpace s) \<noteq> signature cfg \<longrightarrow>
        decrypt G cfg s key = (s, Some ErrNotEncrypted))
   \<and> (\<forall>err. unarmor cfg s = Inl err \<and> err \<noteq> ErrNotEncrypted \<longrightarrow>
        decrypt G cfg s key = ([], Some err))"
  by (auto simp: decrypt_def unarmor_def Let_def)

theorem decrypt_not_encrypted_witness:
  "decrypt demoAEAD defaultConfig (bytes_of ''plain text'') []
     = (bytes_of ''plain text'', Some ErrNotEncrypted)
   \<and> unarmor defaultConfig (bytes_of ''SEC.hey you'') = Inl CorruptInputError
   \<and> decrypt demoAEAD defaultConfig (bytes_of ''SEC.hey you'') [] = ([], Some CorruptInputError)"
proof -
  have h1: "take (length (signature defaultConfig)) (TrimSpace (bytes_of ''plain text''))
              \<noteq> signature defaultConfig"
    by (simp add: defaultConfig_def trim_eval)
  have h2: "unarmor defaultConfig (bytes_of ''SEC.hey you'') = Inl CorruptInputError"
    by (simp add: unarmor_def defaultConfig_def trim_eval b64_eval)
  show ?thesis
    using h1 h2
      decrypt_not_encrypted [of "bytes_of ''plain text''" defaultConfig demoAEAD "[]"]
      decrypt_not_encrypted [of "bytes_of ''SEC.hey you''" defaultConfig demoAEAD "[]"]
    by simp
qed

text \<open>
  C10. \<open>decrypt\<close> never returns \<open>ErrInvalidKeySz\<close>. For an input that unarmours and
  unpacks, a non-empty key goes straight to \<open>initGCM\<close>: a key of 16 or 24 bytes is
  accepted, and the call then returns what \<open>Open\<close> decides, the plaintext or a
  \<open>CipherError\<close> (the authentication is the only place left where it can fail); a key
  of any other length but 32 gets the \<open>KeySizeError\<close> of the cipher, which is neither
  \<open>ErrInvalidKeySz\<close> nor a decipher error. \<open>encrypt\<close> rejects every key that is not
  32 bytes long before anything else.
\<close>

theorem decrypt_key_size:
  "snd (decrypt G cfg s key) \<noteq> Some ErrInvalidKeySz
   \<and> (unarmor cfg s = Inr packed \<and> unpack packed = Inr cm \<and> key \<noteq> [] \<longrightarrow>
        (length key = 16 \<or> length key = 24 \<longrightarrow>
           (\<forall>pt. Open (G key) (nonce cm) (ciphertext cm) (additionalData cm) = Inr pt \<longrightarrow>
                 decrypt G cfg s key = (pt, None))
           \<and> (\<forall>err. Open (G key) (nonce cm) (ciphertext cm) (additionalData cm) = Inl err \<longrightarrow>
                 decrypt G cfg s key = ([], Some (CipherError err))
                 \<and> IsDecipherError (CipherError err)))
        \<and> (length key \<noteq> 16 \<and> length key \<noteq> 24 \<and> length key \<noteq> 32 \<longrightarrow>
             decrypt G cfg s key = ([], Some (KeySizeError (length key)))
             \<and> \<not> IsDecipherError (KeySizeError (length key))
             \<and> KeySizeError (length key) \<noteq> ErrInvalidKeySz))
   \<and> (length key \<noteq> 32 \<longrightarrow>
        encrypt G rnd cfg plaintext key ad
          = Inl (if length key = 0 then ErrNoEncryptionKey else ErrInvalidKeySz))"
proof (intro conjI impI)
  show "snd (decrypt G cfg s key) \<noteq> Some ErrInvalidKeySz"
    by (auto simp: decrypt_def initGCM_def split: sum.splits if_splits
          dest: unarmor_error unpack_error)
qed (auto simp: decrypt_def initGCM_def encrypt_def keySz_32)

theorem decrypt_key_size_witness:
  "unarmor defaultConfig (bytes_of ''SEC.AwECA8zMzMzMzMzMzMzMzAQFBg=='')
     = Inr ([3, 1, 2, 3] @ replicate 12 0xCC @ [4, 5, 6])
   \<and> unpack ([3, 1, 2, 3] @ replicate 12 0xCC @ [4, 5, 6])
     = Inr \<lparr> nonce = replicate 12 0xCC, ciphertext = [4, 5, 6], additionalData = [1, 2, 3] \<rparr>
   \<and> decrypt demoAEAD defaultConfig (bytes_of ''SEC.AwECA8zMzMzMzMzMzMzMzAQFBg=='') (replicate 16 1)
     = ([], Some (CipherError (ErrorString ''cipher: message authentication failed'')))
   \<and> decrypt demoAEAD defaultConfig (bytes_of ''SEC.AwECA8zMzMzMzMzMzMzMzAQFBg=='') (replicate 5 1)
     = ([], Some (KeySizeError 5))
   \<and> decrypt demoAEAD defaultConfig
        (bytes_of ''SEC.AMzMzMzMzMzMzMzMzHBsYWluIHRleHQAAAAAAAAAAAAAAAAAAAAA'') (replicate 16 1)
     = (bytes_of ''plain text'', None)
   \<and> encrypt demoAEAD (Inr (replicate 12 7)) defaultConfig (bytes_of ''plain text'')
         (replicate 16 1) []
     = Inl ErrInvalidKeySz"
proof -
  let ?s = "bytes_of ''SEC.AwECA8zMzMzMzMzMzMzMzAQFBg==''"
  let ?packed = "[3, 1, 2, 3] @ replicate 12 0xCC @ [4, 5, 6] :: bytes"
  let ?cm = "\<lparr> nonce = replicate 12 0xCC, ciphertext = [4, 5, 6], additionalData = [1, 2, 3] \<rparr>"
  let ?s' = "bytes_of ''SEC.AMzMzMzMzMzMzMzMzHBsYWluIHRleHQAAAAAAAAAAAAAAAAAAAAA''"
  let ?packed' = "[0] @ replicate 12 0xCC @ bytes_of ''plain text'' @ replicate 16 0 :: bytes"
  let ?cm' = "\<lparr> nonce = replicate 12 0xCC,
               ciphertext = bytes_of ''plain text'' @ replicate 16 0,
               additionalData = [] \<rparr>"
  have h1: "unarmor defaultConfig ?s = Inr ?packed"
    by (simp add: unarmor_def defaultConfig_def trim_eval b64_eval replicate_12)
  have h2: "unpack ?packed = Inr ?cm"
    by (simp add: unpack_def adlSz_def nonceSz_def)
  have h3: "Open (demoAEAD (replicate 16 1)) (nonce ?cm) (ciphertext ?cm) (additionalData ?cm)
              = Inl (ErrorString ''cipher: message authentication failed'')"
    by (simp add: demoAEAD_def gcmTagSize_def)
  have h1': "unarmor defaultConfig ?s' = Inr ?packed'"
    by (simp add: unarmor_def defaultConfig_def trim_eval b64_eval replicate_12 replicate_16)
  have h2': "unpack ?packed' = Inr ?cm'"
    by (simp add: unpack_def adlSz_def nonceSz_def)
  have h3': "Open (demoAEAD (replicate 16 1)) (nonce ?cm') (ciphertext ?cm') (additionalData ?cm')
              = Inr (bytes_of ''plain text'')"
    by (simp add: demoAEAD_def gcmTagSize_def)
  show ?thesis
    using h1 h2 h3 h1' h2' h3'
      decrypt_key_size [where G = demoAEAD and cfg = defaultConfig and s = ?s
        and key = "replicate 16 1" and packed = ?packed and cm = ?cm
        and rnd = "Inr (replicate 12 7)" and plaintext = "bytes_of ''plain text''" and ad = "[]"]
      decrypt_key_size [where G = demoAEAD and cfg = defaultConfig and s = ?s
        and key = "replicate 5 1" and packed = ?packed and cm = ?cm
        and rnd = "Inr (replicate 12 7)" and plaintext = "bytes_of ''plain text''" and ad = "[]"]
      decrypt_key_size [where G = demoAEAD and cfg = defaultConfig and s = ?s'
        and key = "replicate 16 1" and packed = ?packed' and cm = ?cm'
        and rnd = "Inr (replicate 12 7)" and plaintext = "bytes_of ''plain text''" and ad = "[]"]
    by simp
qed

subsection \<open>Base64: decoding what was encoded\<close>

lemma decodeMap_nth:
  "distinct xs \<Longrightarrow> n < length xs \<Longrightarrow> decodeMap xs (xs ! n) = Some n"
proof (induction xs arbitrary: n)
  case Nil
  then show ?case by simp
next
  case (Cons y ys)
  show ?case
  proof (cases n)
    case 0
    then show ?thesis by simp
  next
    case (Suc m)
    with Cons.prems have "ys ! m \<noteq> y" "m < length ys" "distinct ys"
      by auto
    with Cons.IH [of m] Suc show ?thesis by simp
  qed
qed

lemma encodeStd_length: "length encodeStd = 64"
  by (simp add: encodeStd_def bytes_of_def)

lemma encodeStd_distinct: "distinct encodeStd"
  by (simp add: encodeStd_def bytes_of_def)

lemma decodeMap_padding [simp]: "decodeMap encodeStd StdPadding = None"
  by (simp add: encodeStd_def bytes_of_def StdPadding_def)

lemma digits24:
  fixes v :: nat
  assumes "v < 16777216"
  shows "(v div 262144 mod 64) * 262144 + (v div 4096 mod 64) * 4096
         + (v div 64 mod 64) * 64 + v mod 64 = v"
proof -
  have a: "v div 64 mod 64 * 64 + v mod 64 = v mod 4096"
    using mod_mult2_eq [of v 64 64] by simp
  have b: "v div 4096 mod 64 * 4096 + v mod 4096 = v mod 262144"
    using mod_mult2_eq [of v 4096 64] by simp
  have c: "v div 262144 mod 64 = v div 262144"
    using assms by simp
  have d: "v div 262144 * 262144 + v mod 262144 = v"
    by simp
  from a b d show ?thesis unfolding c by linarith
qed

lemma of_nat_byte_drop:
  "(of_nat (x * 256 + y) :: byte) = of_nat y"
  by (simp only: word_of_nat_eq_iff take_bit_eq_mod) simp

lemma bytes3:
  fixes a b c :: byte
  defines "v \<equiv> unat a * 65536 + unat b * 256 + unat c"
  shows "v < 16777216" "(of_nat (v div 65536) :: byte) = a"
    "(of_nat (v div 256) :: byte) = b" "(of_nat v :: byte) = c"
proof -
  note bnd = unat_byte_less [of a] unat_byte_less [of b] unat_byte_less [of c]
  show "v < 16777216" using bnd by (simp add: v_def)
  have "v div 65536 = unat a" using bnd by (simp add: v_def)
  then show "(of_nat (v div 65536) :: byte) = a" by simp
  have "v div 256 = unat a * 256 + unat b" using bnd by (simp add: v_def)
  then show "(of_nat (v div 256) :: byte) = b"
    using of_nat_byte_drop [of "unat a" "unat b"] by simp
  have "v = (unat a * 256 + unat b) * 256 + unat c" by (simp add: v_def)
  then show "(of_nat v :: byte) = c"
    using of_nat_byte_drop [of "unat a * 256 + unat b" "unat c"] by simp
qed

lemma decodeMap_lt:
  "n < 64 \<Longrightarrow> decodeMap encodeStd (encodeStd ! n) = Some n"
  by (simp add: decodeMap_nth encodeStd_distinct encodeStd_length)

lemma quantum_decode:
  assumes "d0 < 64" "d1 < 64" "d2 < 64" "d3 < 64"
  shows "decodeQuanta ([encodeStd ! d0, encodeStd ! d1, encodeStd ! d2, encodeStd ! d3] @ rest) =
     (case decodeQuanta rest of
        Inl err \<Rightarrow> Inl err
      | Inr out \<Rightarrow>
          Inr ([of_nat ((d0 * 262144 + d1 * 4096 + d2 * 64 + d3) div 65536),
                of_nat ((d0 * 262144 + d1 * 4096 + d2 * 64 + d3) div 256),
                of_nat (d0 * 262144 + d1 * 4096 + d2 * 64 + d3)] @ out))"
  using assms by (simp add: decodeMap_lt Let_def split: sum.splits)

lemma quantum_decode_pad1:
  assumes "d0 < 64" "d1 < 64" "d2 < 64"
  shows "decodeQuanta [encodeStd ! d0, encodeStd ! d1, encodeStd ! d2, StdPadding] =
     Inr [of_nat ((d0 * 262144 + d1 * 4096 + d2 * 64) div 65536),
          of_nat ((d0 * 262144 + d1 * 4096 + d2 * 64) div 256)]"
  using assms by (simp add: decodeMap_lt Let_def)

lemma quantum_decode_pad2:
  assumes "d0 < 64" "d1 < 64"
  shows "decodeQuanta [encodeStd ! d0, encodeStd ! d1, StdPadding, StdPadding] =
     Inr [of_nat ((d0 * 262144 + d1 * 4096) div 65536)]"
  using assms by (simp add: decodeMap_lt Let_def)

lemma decodeQuanta_quantum:
  "decodeQuanta (EncodeToString (a # b # c # rest)) =
     (case decodeQuanta (EncodeToString rest) of
        Inl err \<Rightarrow> Inl err
      | Inr out \<Rightarrow> Inr (a # b # c # out))"
proof -
  define v where "v = unat a * 65536 + unat b * 256 + unat c"
  define d0 d1 d2 d3 where "d0 = v div 262144 mod 64" and "d1 = v div 4096 mod 64"
    and "d2 = v div 64 mod 64" and "d3 = v mod 64"
  note d_defs = this
  have v: "v < 16777216" "(of_nat (v div 65536) :: byte) = a"
    "(of_nat (v div 256) :: byte) = b" "(of_nat v :: byte) = c"
    unfolding v_def by (rule bytes3)+
  have lt: "d0 < 64" "d1 < 64" "d2 < 64" "d3 < 64"
    by (simp_all add: d_defs)
  have sum: "d0 * 262144 + d1 * 4096 + d2 * 64 + d3 = v"
    unfolding d_defs by (rule digits24 [OF v(1)])
  have e: "EncodeToString (a # b # c # rest) =
      [encodeStd ! d0, encodeStd ! d1, encodeStd ! d2, encodeStd ! d3] @ EncodeToString rest"
    by (simp add: v_def d_defs Let_def)
  show ?thesis
    unfolding e quantum_decode [OF lt] sum v(2-4) by (simp split: sum.splits)
qed

lemma decodeQuanta_two:
  "decodeQuanta (EncodeToString [a, b]) = Inr [a, b]"
proof -
  define v where "v = unat a * 65536 + unat b * 256 + unat (0 :: byte)"
  define d0 d1 d2 where "d0 = v div 262144 mod 64" and "d1 = v div 4096 mod 64"
    and "d2 = v div 64 mod 64"
  note d_defs = this
  have v: "v < 16777216" "(of_nat (v div 65536) :: byte) = a"
    "(of_nat (v div 256) :: byte) = b"
    unfolding v_def by (rule bytes3)+
  have v': "v = unat a * 65536 + unat b * 256" by (simp add: v_def)
  have "v = 64 * (unat a * 1024 + unat b * 4)" by (simp add: v')
  then have z: "v mod 64 = 0" by (simp only: mod_mult_self1_is_0)
  have lt: "d0 < 64" "d1 < 64" "d2 < 64"
    by (simp_all add: d_defs)
  have "d0 * 262144 + d1 * 4096 + d2 * 64 + v mod 64 = v"
    unfolding d_defs by (rule digits24 [OF v(1)])
  then have sum: "d0 * 262144 + d1 * 4096 + d2 * 64 = v"
    by (simp only: z add_0_right)
  have e: "EncodeToString [a, b] = [encodeStd ! d0, encodeStd ! d1, encodeStd ! d2, StdPadding]"
    by (simp add: v' d_defs Let_def)
  show ?thesis
    unfolding e quantum_decode_pad1 [OF lt] sum v(2-3) by simp
qed

lemma decodeQuanta_one:
  "decodeQuanta (EncodeToString [a]) = Inr [a]"
proof -
  define v where "v = unat a * 65536 + unat (0 :: byte) * 256 + unat (0 :: byte)"
  define d0 d1 where "d0 = v div 262144 mod 64" and "d1 = v div 4096 mod 64"
  note d_defs = this
  have v: "v < 16777216" "(of_nat (v div 65536) :: byte) = a"
    unfolding v_def by (rule bytes3)+
  have v': "v = unat a * 65536" by (simp add: v_def)
  have "v = 64 * (unat a * 1024)" by (simp add: v')
  then have z: "v mod 64 = 0" by (simp only: mod_mult_self1_is_0)
  have "v div 64 = 64 * (unat a * 16)" by (simp add: v')
  then have z': "v div 64 mod 64 = 0" by (simp only: mod_mult_self1_is_0)
  have lt: "d0 < 64" "d1 < 64"
    by (simp_all add: d_defs)
  have "d0 * 262144 + d1 * 4096 + v div 64 mod 64 * 64 + v mod 64 = v"
    unfolding d_defs by (rule digits24 [OF v(1)])
  then have sum: "d0 * 262144 + d1 * 4096 = v"
    by (simp only: z z' mult_zero_left add_0_right)
  have e: "EncodeToString [a] = [encodeStd ! d0, encodeStd ! d1, StdPadding, StdPadding]"
    by (simp add: v' d_defs Let_def)
  show ?thesis
    unfolding e quantum_decode_pad2 [OF lt] sum v(2) by simp
qed

lemma decodeQuanta_EncodeToString:
  "decodeQuanta (EncodeToString xs) = Inr xs"
proof (induction xs rule: EncodeToString.induct)
  case 1
  show ?case by simp
next
  case (2 a)
  show ?case by (rule decodeQuanta_one)
next
  case (3 a b)
  show ?case by (rule decodeQuanta_two)
next
  case (4 a b c rest)
  then show ?case by (simp only: decodeQuanta_quantum) simp
qed

lemma encodeStd_printable: "\<forall>c\<in>set encodeStd. 0x21 \<le> c \<and> c < 0x80"
  by (simp add: encodeStd_def bytes_of_def)

lemma StdPadding_printable: "0x21 \<le> StdPadding \<and> StdPadding < 0x80"
  by (simp add: StdPadding_def)

lemma spaceRunes_not_printable: "\<forall>e\<in>set spaceRunes. \<forall>c\<in>set e. \<not> (0x21 \<le> c \<and> c < 0x80)"
  by (simp add: spaceRunes_def)

lemma spaceRunes_nonempty: "\<forall>e\<in>set spaceRunes. e \<noteq> []"
  by (simp add: spaceRunes_def)

lemma EncodeToString_printable: "\<forall>c\<in>set (EncodeToString xs). 0x21 \<le> c \<and> c < 0x80"
proof (induction xs rule: EncodeToString.induct)
  case 1
  show ?case by simp
next
  case (2 a)
  show ?case
    using encodeStd_printable StdPadding_printable
    by (simp add: Let_def encodeStd_length)
next
  case (3 a b)
  show ?case
    using encodeStd_printable StdPadding_printable
    by (simp add: Let_def encodeStd_length)
next
  case (4 a b c rest)
  then show ?case
    using encodeStd_printable
    by (simp add: Let_def encodeStd_length)
qed

lemma EncodeToString_Nil_iff: "EncodeToString xs = [] \<longleftrightarrow> xs = []"
  by (induction xs rule: EncodeToString.induct) (simp_all add: Let_def)

lemma DecodeString_EncodeToString:
  "DecodeString (EncodeToString xs) = Inr xs"
proof -
  have "filter (\<lambda>ch. ch \<noteq> 0x0A \<and> ch \<noteq> 0x0D) (EncodeToString xs) = EncodeToString xs"
    using EncodeToString_printable [of xs]
    by (intro filter_True) auto
  then show ?thesis
    by (simp add: DecodeString_def decodeQuanta_EncodeToString)
qed

subsection \<open>Trimming white space\<close>

lemma stripRunes_no_match:
  assumes "\<forall>e\<in>set es. e \<noteq> [] \<longrightarrow> take (length e) s \<noteq> e"
  shows "stripRunes es s = s"
proof -
  have "find (\<lambda>e. e \<noteq> [] \<and> take (length e) s = e) es = None"
    using assms by (auto simp: find_None_iff)
  then show ?thesis
    by (subst stripRunes.simps) simp
qed

lemma stripRunes_strip:
  assumes pf: "\<forall>e\<in>set es. \<forall>e'\<in>set es. take (length e) e' = e \<longrightarrow> e = e'"
    and e: "e \<in> set es" "e \<noteq> []"
  shows "stripRunes es (e @ s) = stripRunes es s"
proof -
  let ?P = "\<lambda>e'. e' \<noteq> [] \<and> take (length e') (e @ s) = e'"
  have "?P e" using e by simp
  with e(1) have "find ?P es \<noteq> None"
    by (auto simp: find_None_iff)
  then obtain e' where f: "find ?P es = Some e'" by auto
  then have e': "e' \<in> set es" "take (length e') (e @ s) = e'"
    by (auto simp: find_Some_iff)
  have "e' = e"
  proof (cases "length e' \<le> length e")
    case True
    with e'(2) have "take (length e') e = e'" by simp
    with pf e'(1) e(1) show ?thesis by blast
  next
    case False
    then have "take (length e) e' = take (length e) (take (length e') (e @ s))"
      using e'(2) by simp
    also have "\<dots> = e" using False by (simp add: min_def)
    finally show ?thesis using pf e'(1) e(1) by blast
  qed
  with f show ?thesis
    by (subst stripRunes.simps) simp
qed

lemma stripRunes_concat:
  assumes pf: "\<forall>e\<in>set es. \<forall>e'\<in>set es. take (length e) e' = e \<longrightarrow> e = e'"
    and ne: "\<forall>e\<in>set es. e \<noteq> []"
  shows "set ls \<subseteq> set es \<Longrightarrow> stripRunes es (concat ls @ s) = stripRunes es s"
proof (induction ls)
  case Nil
  show ?case by simp
next
  case (Cons l ls)
  then have "l \<in> set es" "l \<noteq> []" using ne by auto
  from stripRunes_strip [OF pf this, of "concat ls @ s"] Cons show ?case
    by simp
qed

lemma spaceRunes_prefix_free:
  "\<forall>e\<in>set spaceRunes. \<forall>e'\<in>set spaceRunes. take (length e) e' = e \<longrightarrow> e = e'"
  by (simp add: spaceRunes_def)

lemma revRunes_prefix_free:
  "\<forall>e\<in>set (map rev spaceRunes). \<forall>e'\<in>set (map rev spaceRunes). take (length e) e' = e \<longrightarrow> e = e'"
  by (simp add: spaceRunes_def)

lemma spaceRunes_no_straddle:
  "\<forall>e\<in>set spaceRunes. \<forall>e'\<in>set spaceRunes. hd e' \<notin> set (tl e)"
  by (simp add: spaceRunes_def)

lemma startsWithSpace_iff:
  "startsWithSpace s \<longleftrightarrow> (\<exists>e\<in>set spaceRunes. take (length e) s = e)"
  by (simp add: startsWithSpace_def list_ex_iff)

lemma endsWithSpace_iff:
  "endsWithSpace s \<longleftrightarrow> (\<exists>e\<in>set (map rev spaceRunes). take (length e) (rev s) = e)"
  by (simp add: endsWithSpace_def list_ex_iff)

lemma hd_concat:
  "\<forall>r\<in>set rs. r \<noteq> [] \<Longrightarrow> rs \<noteq> [] \<Longrightarrow> hd (concat rs) = hd (hd rs)"
  by (cases rs) auto

lemma stripRunes_left_pad:
  assumes x: "x \<noteq> []" "\<not> startsWithSpace x"
    and ls: "set ls \<subseteq> set spaceRunes" and rs: "set rs \<subseteq> set spaceRunes"
  shows "stripRunes spaceRunes (concat ls @ x @ concat rs) = x @ concat rs"
proof -
  have "take (length e) (x @ concat rs) \<noteq> e" if e: "e \<in> set spaceRunes" for e
  proof
    assume t: "take (length e) (x @ concat rs) = e"
    show False
    proof (cases "length e \<le> length x")
      case True
      with t have "take (length e) x = e" by simp
      with e x(2) show False by (auto simp: startsWithSpace_iff)
    next
      case False
      then have lx: "length x < length e" by simp
      have len: "length e \<le> length x + length (concat rs)"
        using arg_cong [OF t, of length] by simp
      with lx have "0 < length (concat rs)" by linarith
      then have cne: "concat rs \<noteq> []" by auto
      have rne: "rs \<noteq> []"
      proof
        assume "rs = []"
        with cne show False by simp
      qed
      have "\<forall>r\<in>set rs. r \<noteq> []" using rs spaceRunes_nonempty by blast
      from hd_concat [OF this rne] rne
      obtain r where r: "r \<in> set rs" "r \<noteq> []" "hd (concat rs) = hd r"
        using hd_in_set [OF rne] \<open>\<forall>r\<in>set rs. r \<noteq> []\<close> by blast
      from lx x(1) have "e ! length x \<in> set (tl e)"
        by (cases e) (auto simp: nth_Cons split: nat.splits)
      moreover have "e ! length x = hd (concat rs)"
      proof -
        have "e ! length x = take (length e) (x @ concat rs) ! length x"
          by (simp only: t)
        also have "\<dots> = (x @ concat rs) ! length x"
          using lx by (rule nth_take)
        also have "\<dots> = concat rs ! 0" by (simp add: nth_append)
        also have "\<dots> = hd (concat rs)"
          using hd_conv_nth [OF cne] by simp
        finally show ?thesis .
      qed
      ultimately have "hd r \<in> set (tl e)" using r(3) by simp
      moreover have "r \<in> set spaceRunes" using r(1) rs by auto
      ultimately show False using spaceRunes_no_straddle e by blast
    qed
  qed
  then have "stripRunes spaceRunes (x @ concat rs) = x @ concat rs"
    by (intro stripRunes_no_match) blast
  then show ?thesis
    using stripRunes_concat [OF spaceRunes_prefix_free spaceRunes_nonempty ls, of "x @ concat rs"]
    by simp
qed

lemma stripRunes_right_pad:
  assumes x: "\<not> endsWithSpace x" and rs: "set rs \<subseteq> set spaceRunes"
  shows "stripRunes (map rev spaceRunes) (rev (x @ concat rs)) = rev x"
proof -
  have r: "rev (x @ concat rs) = concat (map rev (rev rs)) @ rev x"
    by (simp add: rev_concat)
  have s: "set (map rev (rev rs)) \<subseteq> set (map rev spaceRunes)"
    using rs by auto
  have ne: "\<forall>e\<in>set (map rev spaceRunes). e \<noteq> []"
    using spaceRunes_nonempty by auto
  have "stripRunes (map rev spaceRunes) (rev x) = rev x"
    using x by (intro stripRunes_no_match) (auto simp: endsWithSpace_iff)
  then show ?thesis
    unfolding r using stripRunes_concat [OF revRunes_prefix_free ne s, of "rev x"] by simp
qed

lemma TrimSpace_pad:
  assumes "\<not> startsWithSpace x" "\<not> endsWithSpace x"
    and ls: "set ls \<subseteq> set spaceRunes" and rs: "set rs \<subseteq> set spaceRunes"
  shows "TrimSpace (concat ls @ x @ concat rs) = x"
proof (cases "x = []")
  case False
  have "TrimSpace (concat ls @ x @ concat rs)
        = rev (stripRunes (map rev spaceRunes) (rev (x @ concat rs)))"
    unfolding TrimSpace_def
    by (simp only: stripRunes_left_pad [OF False assms(1) ls rs])
  also have "\<dots> = rev (rev x)"
    by (simp only: stripRunes_right_pad [OF assms(2) rs])
  finally show ?thesis by simp
next
  case True
  have e: "stripRunes es [] = []" for es
    by (intro stripRunes_no_match) simp
  have "set (ls @ rs) \<subseteq> set spaceRunes" using ls rs by simp
  from stripRunes_concat [OF spaceRunes_prefix_free spaceRunes_nonempty this, of "[]"]
  show ?thesis using True by (simp add: TrimSpace_def e)
qed

subsection \<open>Armouring\<close>

lemma armor_no_leading_space:
  assumes s: "\<not> startsWithSpace sig" and b: "\<forall>c\<in>set b. 0x21 \<le> c \<and> c < 0x80"
  shows "\<not> startsWithSpace (sig @ b)"
proof
  assume "startsWithSpace (sig @ b)"
  then obtain e where e: "e \<in> set spaceRunes" and t: "take (length e) (sig @ b) = e"
    by (auto simp: startsWithSpace_iff)
  show False
  proof (cases "length e \<le> length sig")
    case True
    with t have "take (length e) sig = e" by simp
    with e s show False by (auto simp: startsWithSpace_iff)
  next
    case False
    then have lx: "length sig < length e" by simp
    have "length e \<le> length sig + length b"
      using arg_cong [OF t, of length] by simp
    with lx have lb: "0 < length b" by linarith
    have "e ! length sig = take (length e) (sig @ b) ! length sig"
      by (simp only: t)
    also have "\<dots> = (sig @ b) ! length sig"
      using lx by (rule nth_take)
    also have "\<dots> = b ! 0" by (simp add: nth_append)
    finally have "e ! length sig \<in> set b" using lb by simp
    moreover have "e ! length sig \<in> set e" using lx by simp
    ultimately show False using spaceRunes_not_printable e b by blast
  qed
qed

lemma armor_no_trailing_space:
  assumes s: "b = [] \<longrightarrow> \<not> endsWithSpace sig" and b: "\<forall>c\<in>set b. 0x21 \<le> c \<and> c < 0x80"
  shows "\<not> endsWithSpace (sig @ b)"
proof (cases "b = []")
  case True
  with s show ?thesis by simp
next
  case False
  show ?thesis
  proof
    assume "endsWithSpace (sig @ b)"
    then obtain e where e: "e \<in> set spaceRunes"
      and t: "take (length e) (rev b @ rev sig) = rev e"
      by (auto simp: endsWithSpace_iff)
    from e have ne: "e \<noteq> []" using spaceRunes_nonempty by blast
    from False have "rev b \<noteq> []" by simp
    then have "hd (take (length e) (rev b @ rev sig)) = hd (rev b)"
      using ne by (cases "rev b"; cases e) auto
    with t have "hd (rev e) = last b" using False by (simp add: hd_rev)
    then have "last e = last b" using ne by (simp add: hd_rev)
    moreover have "last e \<in> set e" using ne by simp
    moreover have "last b \<in> set b" using False by simp
    ultimately show False using spaceRunes_not_printable e b by metis
  qed
qed

lemma unarmor_armor_pad:
  assumes s: "\<not> startsWithSpace (signature cfg)"
    and t: "buf = [] \<longrightarrow> \<not> endsWithSpace (signature cfg)"
    and ls: "set ls \<subseteq> set spaceRunes" and rs: "set rs \<subseteq> set spaceRunes"
  shows "unarmor cfg (concat ls @ armor cfg buf @ concat rs) = Inr buf"
proof -
  have b: "\<forall>c\<in>set (EncodeToString buf). 0x21 \<le> c \<and> c < 0x80"
    by (rule EncodeToString_printable)
  have t': "EncodeToString buf = [] \<longrightarrow> \<not> endsWithSpace (signature cfg)"
    using t by (simp add: EncodeToString_Nil_iff)
  have "TrimSpace (concat ls @ armor cfg buf @ concat rs) = armor cfg buf"
    unfolding armor_def
    by (rule TrimSpace_pad [OF armor_no_leading_space [OF s b]
          armor_no_trailing_space [OF t' b] ls rs])
  then show ?thesis
    by (simp add: unarmor_def armor_def DecodeString_EncodeToString)
qed

lemma unarmor_armor:
  assumes s: "\<not> startsWithSpace (signature cfg)"
    and t: "buf = [] \<longrightarrow> \<not> endsWithSpace (signature cfg)"
  shows "unarmor cfg (armor cfg buf) = Inr buf"
  using unarmor_armor_pad [OF s t, of "[]" "[]"] by simp

lemma defaultSignature_no_space:
  "\<not> startsWithSpace (signature defaultConfig)" "\<not> endsWithSpace (signature defaultConfig)"
  by (simp_all add: startsWithSpace_def endsWithSpace_def defaultConfig_def bytes_of_def spaceRunes_def)

text \<open>
  C7, as the code has it. \<open>unarmor\<close> trims white space before it compares the prefix
  with the signature, and \<open>SetSignature\<close> accepts every non-empty signature. For every
  signature that does not begin with white space, and that does not end with white
  space when the buffer is empty, \<open>unarmor (armor buf)\<close> returns \<open>buf\<close> unchanged for
  every buffer (the empty one too), and so does \<open>unarmor\<close> of the armoured string with
  white space added before and after it (two spaces before and a line feed after, or
  any other white-space runes). With the empty buffer \<open>armor\<close> returns exactly the
  signature. The default signature \<open>SEC.\<close> meets the condition.
\<close>

theorem unarmor_armor_roundtrip:
  assumes "\<not> startsWithSpace (signature cfg)"
    and "buf = [] \<longrightarrow> \<not> endsWithSpace (signature cfg)"
  shows "unarmor cfg (armor cfg buf) = Inr buf
       \<and> (\<forall>ls rs. set ls \<subseteq> set spaceRunes \<and> set rs \<subseteq> set spaceRunes \<longrightarrow>
             unarmor cfg (concat ls @ armor cfg buf @ concat rs) = Inr buf)
       \<and> unarmor cfg (bytes_of ''  '' @ armor cfg buf @ [0x0A]) = Inr buf
       \<and> armor cfg [] = signature cfg"
proof (intro conjI allI impI)
  show "unarmor cfg (armor cfg buf) = Inr buf"
    by (rule unarmor_armor [OF assms])
next
  fix ls rs :: "bytes list"
  assume "set ls \<subseteq> set spaceRunes \<and> set rs \<subseteq> set spaceRunes"
  then show "unarmor cfg (concat ls @ armor cfg buf @ concat rs) = Inr buf"
    by (simp add: unarmor_armor_pad [OF assms])
next
  have "set [[0x20], [0x20 :: byte]] \<subseteq> set spaceRunes" "set [[0x0A :: byte]] \<subseteq> set spaceRunes"
    by (simp_all add: spaceRunes_def)
  from unarmor_armor_pad [OF assms this]
  show "unarmor cfg (bytes_of ''  '' @ armor cfg buf @ [0x0A]) = Inr buf"
    by (simp add: bytes_of_def)
next
  show "armor cfg [] = signature cfg"
    by (simp add: armor_def)
qed

theorem unarmor_armor_roundtrip_witness:
  "\<not> startsWithSpace (signature defaultConfig)
   \<and> \<not> endsWithSpace (signature defaultConfig)
   \<and> armor defaultConfig [] = bytes_of ''SEC.''
   \<and> unarmor defaultConfig (armor defaultConfig []) = Inr []
   \<and> unarmor defaultConfig (bytes_of ''  '' @ armor defaultConfig [3, 1, 2, 3] @ [0x0A]) = Inr [3, 1, 2, 3]
   \<and> unarmor defaultConfig (concat [[0xC2, 0xA0], [0x09]] @ armor defaultConfig [3, 1, 2, 3]
        @ concat [[0xE2, 0x80, 0x80]]) = Inr [3, 1, 2, 3]"
proof -
  note h = defaultSignature_no_space
  have h2: "buf = [] \<longrightarrow> \<not> endsWithSpace (signature defaultConfig)" for buf :: bytes
    using h(2) by simp
  have s: "set [[0xC2, 0xA0], [0x09 :: byte]] \<subseteq> set spaceRunes \<and>
           set [[0xE2, 0x80, 0x80 :: byte]] \<subseteq> set spaceRunes"
    by (simp add: spaceRunes_def)
  note r0 = unarmor_armor_roundtrip [OF h(1) h2, of "[]"]
  note r1 = unarmor_armor_roundtrip [OF h(1) h2, of "[3, 1, 2, 3]"]
  note r2 = r1 [THEN conjunct2, THEN conjunct1, rule_format, OF s]
  have sig: "signature defaultConfig = bytes_of ''SEC.''"
    by (simp add: defaultConfig_def)
  show ?thesis
    using h r0 r1 r2 by (simp only: sig) simp
qed

text \<open>
  After \<^verbatim>\<open>SetSignature(" SEC.")\<close> the armoured string begins with a space.
  \<open>unarmor\<close> trims it, the first five bytes are then \<^verbatim>\<open>SEC.A\<close> and not the
  signature, and the result is \<open>ErrNotEncrypted\<close>.
\<close>

theorem unarmor_armor_space_signature_counterexample:
  "SetSignature defaultConfig (bytes_of '' SEC.'')
     = Returns (defaultConfig \<lparr> signature := bytes_of '' SEC.'' \<rparr>)
   \<and> armor (defaultConfig \<lparr> signature := bytes_of '' SEC.'' \<rparr>) [1, 2, 3]
     = bytes_of '' SEC.AQID''
   \<and> unarmor (defaultConfig \<lparr> signature := bytes_of '' SEC.'' \<rparr>)
        (armor (defaultConfig \<lparr> signature := bytes_of '' SEC.'' \<rparr>) [1, 2, 3])
     = Inl ErrNotEncrypted"
  by (simp add: SetSignature_def armor_def unarmor_def encodeStd_def StdPadding_def trim_eval Let_def)

subsection \<open>Encrypting and decrypting with a passphrase\<close>

lemma deriveKey_valid:
  assumes "0 < length passphrase" "length passphrase \<le> 32"
  shows "\<exists>key. deriveKey cfg passphrase = Returns (Inr key) \<and> length key = 32"
proof -
  have "\<not> SaltSz \<le> unat (passphrase ! 0)"
    using unat_byte_less [of "passphrase ! 0"] by (simp add: SaltSz_256)
  with assms show ?thesis
    by (simp add: deriveKey_def keySz_32 Let_def)
qed

lemma encrypt_decrypt:
  assumes G: "aead_correct G"
    and p: "plaintext \<noteq> []"
    and k: "length key = 32"
    and ad: "length ad \<le> maxDataSz"
    and n: "length nc = nonceSz"
    and s: "\<not> startsWithSpace (signature cfg)"
  shows "\<exists>c. encrypt G (Inr nc) cfg plaintext key ad = Inr c \<and> decrypt G cfg c key = (plaintext, None)"
proof -
  let ?ct = "Seal (G key) nc plaintext ad"
  let ?packed = "of_nat (length ad) # ad @ nc @ ?ct"
  from G k n have o: "Open (G key) nc ?ct ad = Inr plaintext"
    and l: "length ?ct = length plaintext + gcmTagSize"
    by (simp_all add: aead_correct_def)
  from l p have ct: "?ct \<noteq> []" by auto
  have g: "initGCM G key = Inr (G key)"
    using k by (simp add: initGCM_def)
  have pk: "pack \<lparr> nonce = nc, ciphertext = ?ct, additionalData = ad \<rparr> = Inr ?packed"
    using pack_layout [of "\<lparr> nonce = nc, ciphertext = ?ct, additionalData = ad \<rparr>"] n ct ad
    by simp
  have e: "encrypt G (Inr nc) cfg plaintext key ad = Inr (armor cfg ?packed)"
    using p k ad g pk by (simp add: encrypt_def keySz_32 Let_def)
  have u: "unarmor cfg (armor cfg ?packed) = Inr ?packed"
    by (rule unarmor_armor [OF s]) simp
  have up: "unpack ?packed = Inr \<lparr> nonce = nc, ciphertext = ?ct, additionalData = ad \<rparr>"
    by (rule unpack_layout [OF n ct ad])
  have "decrypt G cfg (armor cfg ?packed) key = (plaintext, None)"
    using k by (simp add: decrypt_def u up g o)
  with e show ?thesis by simp
qed

lemma armor_example:
  "armor (defaultConfig \<lparr> signature := bytes_of '' SEC.'' \<rparr>)
     (0 # replicate 12 0xCC @ bytes_of ''plain text'' @ replicate 16 0)
   = bytes_of '' SEC.AMzMzMzMzMzMzMzMzHBsYWluIHRleHQAAAAAAAAAAAAAAAAAAAAA''"
  by (simp add: armor_def bytes_of_def encodeStd_def replicate_12 replicate_16)

lemma unarmor_example:
  "unarmor (defaultConfig \<lparr> signature := bytes_of '' SEC.'' \<rparr>)
     (bytes_of '' SEC.AMzMzMzMzMzMzMzMzHBsYWluIHRleHQAAAAAAAAAAAAAAAAAAAAA'')
   = Inl ErrNotEncrypted"
  by (simp add: unarmor_def trim_eval)

text \<open>
  C1, as the code has it. For every signature that does not begin with white space
  (the default \<open>SEC.\<close> does not), every non-empty plaintext, every passphrase of 1 to
  32 bytes and every 12-byte nonce drawn during encryption, \<open>EncryptWithPassphrase\<close>
  succeeds, and \<open>DecryptWithPassphrase\<close> of its result under the same passphrase, salt
  and signature returns exactly the plaintext. The cipher is any \<open>G\<close> that opens
  what it sealed (\<open>aead_correct\<close>).
\<close>

theorem passphrase_roundtrip:
  assumes "aead_correct G"
    and "plaintext \<noteq> []"
    and "0 < length passphrase" and "length passphrase \<le> 32"
    and "length nc = nonceSz"
    and "\<not> startsWithSpace (signature cfg)"
  shows "\<exists>c. EncryptWithPassphrase G (Inr nc) cfg plaintext passphrase = Returns (Inr c)
           \<and> DecryptWithPassphrase G cfg c passphrase = Returns (plaintext, None)"
proof -
  from deriveKey_valid [OF assms(3,4)] obtain key
    where key: "deriveKey cfg passphrase = Returns (Inr key)" "length key = 32"
    by blast
  from encrypt_decrypt [OF assms(1,2) key(2) _ assms(5,6), of "[]"] obtain c
    where "encrypt G (Inr nc) cfg plaintext key [] = Inr c"
      "decrypt G cfg c key = (plaintext, None)"
    by auto
  with key(1) show ?thesis
    by (simp add: EncryptWithPassphrase_def DecryptWithPassphrase_def)
qed

theorem passphrase_roundtrip_witness:
  "aead_correct demoAEAD
   \<and> \<not> startsWithSpace (signature defaultConfig)
   \<and> (\<exists>c. EncryptWithPassphrase demoAEAD (Inr (replicate 12 0xCC)) defaultConfig
              (bytes_of ''plain text'') [0, 0, 0, 0, 0, 0] = Returns (Inr c)
          \<and> DecryptWithPassphrase demoAEAD defaultConfig c [0, 0, 0, 0, 0, 0]
              = Returns (bytes_of ''plain text'', None))"
proof -
  have p: "bytes_of ''plain text'' \<noteq> []" by (simp add: bytes_of_def)
  have n: "length (replicate 12 (0xCC :: byte)) = nonceSz" by (simp add: nonceSz_def)
  have k: "0 < length [0, 0, 0, 0, 0, 0 :: byte]" "length [0, 0, 0, 0, 0, 0 :: byte] \<le> 32"
    by simp_all
  from passphrase_roundtrip [OF demoAEAD_correct p k n defaultSignature_no_space(1)]
  show ?thesis
    using demoAEAD_correct defaultSignature_no_space(1) by blast
qed

text \<open>
  After \<^verbatim>\<open>SetSignature(" SEC.")\<close> encryption succeeds, but decrypting its result
  stops at the signature check of \<open>unarmor\<close>, before the key or the cipher is used:
  the call returns its input together with \<open>ErrNotEncrypted\<close>, not the plaintext.
\<close>

theorem passphrase_roundtrip_space_signature_counterexample:
  "SetSignature defaultConfig (bytes_of '' SEC.'')
     = Returns (defaultConfig \<lparr> signature := bytes_of '' SEC.'' \<rparr>)
   \<and> EncryptWithPassphrase demoAEAD (Inr (replicate 12 0xCC))
        (defaultConfig \<lparr> signature := bytes_of '' SEC.'' \<rparr>)
        (bytes_of ''plain text'') [0, 0, 0, 0, 0, 0]
     = Returns (Inr (bytes_of '' SEC.AMzMzMzMzMzMzMzMzHBsYWluIHRleHQAAAAAAAAAAAAAAAAAAAAA''))
   \<and> DecryptWithPassphrase demoAEAD (defaultConfig \<lparr> signature := bytes_of '' SEC.'' \<rparr>)
        (bytes_of '' SEC.AMzMzMzMzMzMzMzMzHBsYWluIHRleHQAAAAAAAAAAAAAAAAAAAAA'') [0, 0, 0, 0, 0, 0]
     = Returns (bytes_of '' SEC.AMzMzMzMzMzMzMzMzHBsYWluIHRleHQAAAAAAAAAAAAAAAAAAAAA'',
                Some ErrNotEncrypted)"
proof -
  let ?cfg = "defaultConfig \<lparr> signature := bytes_of '' SEC.'' \<rparr>"
  let ?c = "bytes_of '' SEC.AMzMzMzMzMzMzMzMzHBsYWluIHRleHQAAAAAAAAAAAAAAAAAAAAA''"
  obtain key where key: "deriveKey ?cfg [0, 0, 0, 0, 0, 0] = Returns (Inr key)" "length key = 32"
    using deriveKey_valid [of "[0, 0, 0, 0, 0, 0]" ?cfg] by auto
  have pk: "pack \<lparr> nonce = replicate 12 0xCC,
                   ciphertext = bytes_of ''plain text'' @ replicate 16 0,
                   additionalData = [] \<rparr>
            = Inr (0 # replicate 12 0xCC @ bytes_of ''plain text'' @ replicate 16 0)"
    using pack_layout [of "\<lparr> nonce = replicate 12 0xCC,
                   ciphertext = bytes_of ''plain text'' @ replicate 16 0,
                   additionalData = [] \<rparr>"]
    by (simp add: nonceSz_def)
  have a: "armor ?cfg (0 # replicate 12 0xCC @ bytes_of ''plain text'' @ replicate 16 0) = ?c"
    by (rule armor_example)
  have p: "bytes_of ''plain text'' \<noteq> []" by (simp add: bytes_of_def)
  have sl: "Seal (demoAEAD key) (replicate 12 0xCC) (bytes_of ''plain text'') []
            = bytes_of ''plain text'' @ replicate 16 0"
    by (simp add: demoAEAD_def gcmTagSize_def)
  have e: "encrypt demoAEAD (Inr (replicate 12 0xCC)) ?cfg (bytes_of ''plain text'') key [] = Inr ?c"
    using key(2) p by (simp add: encrypt_def keySz_32 maxDataSz_255 initGCM_def sl pk a)
  have u: "unarmor ?cfg ?c = Inl ErrNotEncrypted"
    by (rule unarmor_example)
  have d: "decrypt demoAEAD ?cfg ?c key = (?c, Some ErrNotEncrypted)"
    by (simp add: decrypt_def u)
  have ss: "SetSignature defaultConfig (bytes_of '' SEC.'') = Returns ?cfg"
    by (simp add: SetSignature_def bytes_of_def)
  show ?thesis
    unfolding EncryptWithPassphrase_def DecryptWithPassphrase_def key(1)
    using ss e d by simp
qed

subsection \<open>Decipher errors and altered ciphertext\<close>

lemma IsDecipherError_iff:
  "IsDecipherError err \<longleftrightarrow> (\<exists>e. err = CipherError e) \<or> (\<exists>v. err = CorruptError v)"
  by (cases err) simp_all

text \<open>
  What \<open>decrypt\<close> does with a well-formed buffer whose ciphertext field was replaced:
  the nonce and the additional data reach \<open>Open\<close> as they were packed, and the outcome
  is \<open>Open\<close>'s, with its error wrapped as \<open>CipherError\<close>. Whether an altered
  ciphertext is rejected is decided by the cipher alone.
\<close>

lemma decrypt_altered_ciphertext:
  assumes s: "\<not> startsWithSpace (signature cfg)"
    and n: "length nc = nonceSz"
    and c: "ct' \<noteq> []"
    and d: "length ad \<le> maxDataSz"
    and k: "length key = 32"
  shows "decrypt G cfg (armor cfg (of_nat (length ad) # ad @ nc @ ct')) key
         = (case Open (G key) nc ct' ad of
              Inl err \<Rightarrow> ([], Some (CipherError err))
            | Inr pt \<Rightarrow> (pt, None))"
proof -
  let ?packed = "of_nat (length ad) # ad @ nc @ ct'"
  have u: "unarmor cfg (armor cfg ?packed) = Inr ?packed"
    by (rule unarmor_armor [OF s]) simp
  have up: "unpack ?packed = Inr \<lparr> nonce = nc, ciphertext = ct', additionalData = ad \<rparr>"
    by (rule unpack_layout [OF n c d])
  have g: "initGCM G key = Inr (G key)"
    using k by (simp add: initGCM_def)
  show ?thesis
    using k by (simp add: decrypt_def u up g split: sum.splits)
qed

end
